theory Spec2Isabelle
  imports Complex_Main
begin

section \<open>JavaScript values shared by the bundles\<close>

text \<open>
  The JavaScript remainder \<^verbatim>\<open>a % b\<close> on integers truncates towards zero: its sign is
  the sign of the dividend. (For \<open>b = 0\<close> JavaScript gives NaN; the slideshow only divides by
  \<open>totalSlides\<close>, which is at least 2 where the operator is reached.)
\<close>

definition js_rem :: "int \<Rightarrow> int \<Rightarrow> int" where
  "js_rem a b = sgn a * (\<bar>a\<bar> mod \<bar>b\<bar>)"

text \<open>Decimal rendering of a non-negative integer, as a template literal prints a number.\<close>

fun string_of_nat :: "nat \<Rightarrow> string" where
  "string_of_nat n =
     (if n < 10 then [''0123456789'' ! n]
      else string_of_nat (n div 10) @ [''0123456789'' ! (n mod 10)])"

declare string_of_nat.simps [simp del]

text \<open>
  A property read from an object is either a value or \<^verbatim>\<open>undefined\<close>; for string-valued
  properties this is \<open>string option\<close>, with \<open>None\<close> for \<^verbatim>\<open>undefined\<close>.
\<close>

type_synonym js_string = "string option"

section \<open>Breakpoint utilities (home-bundle.js, getBreakpoint)\<close>

text \<open>\<open>getBreakpoint\<close> reads \<^verbatim>\<open>window.innerWidth\<close>; the width is the argument here.\<close>

definition getBreakpoint :: "int \<Rightarrow> string" where
  "getBreakpoint innerWidth =
     (if innerWidth \<ge> 1536 then ''2xl''
      else if innerWidth \<ge> 1280 then ''xl''
      else if innerWidth \<ge> 1024 then ''lg''
      else if innerWidth \<ge> 768 then ''md''
      else if innerWidth \<ge> 640 then ''sm''
      else ''all'')"

text \<open>
  The order of the labels, \<open>all < sm < md < lg < xl < 2xl\<close>: the position of a label in this
  list (a string that is no label gets the length of the list).
\<close>

definition breakpoint_order :: "string list" where
  "breakpoint_order = [''all'', ''sm'', ''md'', ''lg'', ''xl'', ''2xl'']"

primrec index_of :: "'a \<Rightarrow> 'a list \<Rightarrow> nat" where
  "index_of x [] = 0"
| "index_of x (y # ys) = (if x = y then 0 else Suc (index_of x ys))"

definition bp_rank :: "string \<Rightarrow> nat" where
  "bp_rank l = index_of l breakpoint_order"

section \<open>General utilities (home-bundle.js, getRandomElement)\<close>

text \<open>
  \<^verbatim>\<open>Math.random()\<close> is the argument \<open>r\<close>, a number with \<open>0 \<le> r < 1\<close>. The array may be
  \<^verbatim>\<open>undefined\<close> (\<open>None\<close>). The result \<open>None\<close> stands for the \<^verbatim>\<open>null\<close> of the early return
  and for the \<^verbatim>\<open>undefined\<close> of a read past the end of the array, both falsy.
\<close>

definition getRandomElement :: "'a list option \<Rightarrow> real \<Rightarrow> 'a option" where
  "getRandomElement array r =
     (case array of
        None \<Rightarrow> None
      | Some xs \<Rightarrow>
          if length xs = 0 then None
          else (let randomIndex = \<lfloor>r * real (length xs)\<rfloor>
                in if 0 \<le> randomIndex \<and> nat randomIndex < length xs
                   then Some (xs ! nat randomIndex) else None))"

section \<open>Image utilities (home-bundle.js, getRandomImage and getResponsiveImageUrl)\<close>

text \<open>
  An image set of the home page is an object read by breakpoint name
  (\<^verbatim>\<open>randomImageSet[bp]\<close>): a map from property names to URLs. The document is seen through
  \<^verbatim>\<open>document.querySelector(`#${id} img`)\<close>: a map from the id to the value last assigned
  to the \<^verbatim>\<open>src\<close> of the image found there, \<open>None\<close> when no such image exists.
\<close>

type_synonym image_set = "string \<rightharpoonup> string"

type_synonym img_document = "string \<rightharpoonup> js_string"

definition getRandomImage ::
  "int \<Rightarrow> real \<Rightarrow> image_set list option \<Rightarrow> string \<Rightarrow> img_document \<Rightarrow> img_document" where
  "getRandomImage innerWidth r imageList ident doc =
     (case getRandomElement imageList r of
        None \<Rightarrow> doc
      | Some randomImageSet \<Rightarrow>
          (let bp = getBreakpoint innerWidth
           in case doc ident of
                None \<Rightarrow> doc
              | Some imgEl \<Rightarrow> doc(ident \<mapsto> randomImageSet bp)))"

text \<open>
  An artist image has the per-breakpoint URLs under \<^verbatim>\<open>responsive\<close> and the fallback under
  \<^verbatim>\<open>original.src\<close>. The operator \<^verbatim>\<open>||\<close> yields its right operand when the left one is
  falsy: \<^verbatim>\<open>undefined\<close> (no entry) or the empty string.
\<close>

record imagen =
  name :: string
  responsive :: "string \<rightharpoonup> string"
  original_src :: string

definition getResponsiveImageUrl :: "int \<Rightarrow> imagen \<Rightarrow> string" where
  "getResponsiveImageUrl innerWidth im =
     (let bp = getBreakpoint innerWidth
      in case responsive im bp of
           None \<Rightarrow> original_src im
         | Some url \<Rightarrow> if url = [] then original_src im else url)"

section \<open>Debug utility (utils/debug.js)\<close>

text \<open>
  JSON values, as \<^verbatim>\<open>response.json()\<close> and the injected configuration hold them. Numbers are
  kept as integers: no operation below inspects one.
\<close>

datatype json =
  JNull | JBool bool | JNum int | JStr string | JArr "json list" | JObj "(string \<times> json) list"

datatype js_error = HttpError nat | TransportError | SyntaxError | TypeError

text \<open>
  One argument of a console call. A template literal is kept by its parts, and the
  interpolated \<^verbatim>\<open>data.length\<close> as the value it is read from.
\<close>

datatype log_arg =
  Text string | Data json | LengthOf json | Thrown js_error | Template "log_arg list"

text \<open>
  The console: the names of the properties of \<^verbatim>\<open>console\<close> that are functions, and the
  calls made so far, each with its level and arguments, oldest first.
\<close>

record console_obj =
  methods :: "string list"
  emitted :: "(string \<times> log_arg list) list"

definition console_call :: "string \<Rightarrow> log_arg list \<Rightarrow> console_obj \<Rightarrow> console_obj" where
  "console_call level args console = console\<lparr>emitted := emitted console @ [(level, args)]\<rparr>"

text \<open>
  The global object: \<^verbatim>\<open>window.KAUKA_CONFIG\<close> (\<open>None\<close> when it is not set) with its
  \<^verbatim>\<open>debug\<close> property (\<open>None\<close> when absent), and the truthiness of \<^verbatim>\<open>window.KAUKA_DEBUG\<close>.
  A \<^verbatim>\<open>window\<close> that is not defined at all is \<open>None\<close>.
\<close>

record kauka_config =
  debug :: "json option"

record window_obj =
  KAUKA_CONFIG :: "kauka_config option"
  KAUKA_DEBUG :: bool

definition isEnabled :: "window_obj option \<Rightarrow> bool" where
  "isEnabled window =
     (case window of
        None \<Rightarrow> False
      | Some w \<Rightarrow>
          (case KAUKA_CONFIG w of
             None \<Rightarrow> False
           | Some config \<Rightarrow> debug config = Some (JBool True)))"

definition debugLog ::
  "window_obj option \<Rightarrow> string \<Rightarrow> log_arg \<Rightarrow> log_arg list \<Rightarrow> console_obj \<Rightarrow> console_obj" where
  "debugLog window level modname args console =
     (if (case window of
            None \<Rightarrow> False
          | Some w \<Rightarrow>
              (case KAUKA_CONFIG w of
                 None \<Rightarrow> False
               | Some config \<Rightarrow> debug config = Some (JBool True)))
      then (if level \<in> set (methods console)
            then console_call level (modname # args) console
            else console)
      else console)"

definition Debug_log :: "window_obj option \<Rightarrow> log_arg \<Rightarrow> log_arg list \<Rightarrow> console_obj \<Rightarrow> console_obj" where
  "Debug_log window modname args = debugLog window ''log'' modname args"

definition Debug_warn :: "window_obj option \<Rightarrow> log_arg \<Rightarrow> log_arg list \<Rightarrow> console_obj \<Rightarrow> console_obj" where
  "Debug_warn window modname args = debugLog window ''warn'' modname args"

definition Debug_error :: "window_obj option \<Rightarrow> log_arg \<Rightarrow> log_arg list \<Rightarrow> console_obj \<Rightarrow> console_obj" where
  "Debug_error window modname args = debugLog window ''error'' modname args"

definition Debug_debug :: "window_obj option \<Rightarrow> log_arg \<Rightarrow> log_arg list \<Rightarrow> console_obj \<Rightarrow> console_obj" where
  "Debug_debug window modname args = debugLog window ''debug'' modname args"

definition Debug_info :: "window_obj option \<Rightarrow> log_arg \<Rightarrow> log_arg list \<Rightarrow> console_obj \<Rightarrow> console_obj" where
  "Debug_info window modname args = debugLog window ''info'' modname args"

section \<open>Data fetching utilities (home-bundle.js, fetchProgramaCuratorial and fetchArtists)\<close>

text \<open>
  What \<^verbatim>\<open>fetch(url)\<close> settles with: a rejection (the request did not complete), or a response
  with its HTTP status and its body, \<open>None\<close> when the body is not JSON, so that
  \<^verbatim>\<open>response.json()\<close> rejects. The network is a function from the URL to that outcome.
\<close>

datatype fetch_outcome = NetworkError | Response nat "json option"

type_synonym network = "string \<Rightarrow> fetch_outcome"

definition response_ok :: "nat \<Rightarrow> bool" where
  "response_ok status = (200 \<le> status \<and> status \<le> 299)"

text \<open>
  A settled promise, together with the console after the handlers that ran. A handler
  that returns fulfils the next promise, one that throws rejects it; \<^verbatim>\<open>then\<close> skips a
  rejection and \<^verbatim>\<open>catch\<close> skips a fulfilment.
\<close>

datatype 'a promise = Fulfilled 'a | Rejected js_error

definition then_p ::
  "'a promise \<times> console_obj \<Rightarrow> ('a \<Rightarrow> console_obj \<Rightarrow> 'b promise \<times> console_obj)
   \<Rightarrow> 'b promise \<times> console_obj" where
  "then_p p handler =
     (case fst p of
        Fulfilled v \<Rightarrow> handler v (snd p)
      | Rejected e \<Rightarrow> (Rejected e, snd p))"

definition catch_p ::
  "'a promise \<times> console_obj \<Rightarrow> (js_error \<Rightarrow> console_obj \<Rightarrow> 'a promise \<times> console_obj)
   \<Rightarrow> 'a promise \<times> console_obj" where
  "catch_p p handler =
     (case fst p of
        Fulfilled v \<Rightarrow> (Fulfilled v, snd p)
      | Rejected e \<Rightarrow> handler e (snd p))"

definition fetch :: "network \<Rightarrow> string \<Rightarrow> console_obj \<Rightarrow> (nat \<times> json option) promise \<times> console_obj" where
  "fetch net url console =
     (case net url of
        NetworkError \<Rightarrow> (Rejected TransportError, console)
      | Response status body \<Rightarrow> (Fulfilled (status, body), console))"

text \<open>The first handler of both fetchers: the status check, then \<^verbatim>\<open>response.json()\<close>.\<close>

definition response_json :: "nat \<times> json option \<Rightarrow> console_obj \<Rightarrow> json promise \<times> console_obj" where
  "response_json response console =
     (if \<not> response_ok (fst response) then (Rejected (HttpError (fst response)), console)
      else (case snd response of
              None \<Rightarrow> (Rejected SyntaxError, console)
            | Some data \<Rightarrow> (Fulfilled data, console)))"

definition fetchProgramaCuratorial ::
  "window_obj \<Rightarrow> network \<Rightarrow> string \<Rightarrow> console_obj \<Rightarrow> json promise \<times> console_obj" where
  "fetchProgramaCuratorial window net baseURL console =
     catch_p
       (then_p
          (then_p (fetch net (baseURL @ ''/programa-curatorial/index.json'') console)
             response_json)
          (\<lambda>data c.
             (Fulfilled data,
              if KAUKA_DEBUG window
              then console_call ''log'' [Text ''Programa Curatorial data:'', Data data] c
              else c)))
       (\<lambda>error c.
          (Fulfilled (JArr []),
           console_call ''error''
             [Text ''Error fetching programa-curatorial data:'', Thrown error] c))"

text \<open>
  In \<open>fetchArtists\<close> the debug message reads \<^verbatim>\<open>data.length\<close>, which throws a TypeError
  when the body is the JSON \<^verbatim>\<open>null\<close>.
\<close>

definition fetchArtists ::
  "window_obj \<Rightarrow> network \<Rightarrow> string \<Rightarrow> console_obj \<Rightarrow> json promise \<times> console_obj" where
  "fetchArtists window net baseURL console =
     catch_p
       (then_p
          (then_p (fetch net (baseURL @ ''/artistas/index.json'') console)
             response_json)
          (\<lambda>data c.
             if KAUKA_DEBUG window
             then (if data = JNull then (Rejected TypeError, c)
                   else (Fulfilled data,
                         console_call ''log''
                           [Template [Text ''Found '', LengthOf data,
                                      Text '' artists with image galleries'']] c))
             else (Fulfilled data, c)))
       (\<lambda>error c.
          (Fulfilled (JArr []),
           console_call ''error'' [Text ''Error fetching artists data:'', Thrown error] c))"

text \<open>
  The opening statements of \<open>initHomePage\<close> (home-bundle.js, the first console call and the
  assignment of the debug mode): what they do to the global object and the console.
\<close>

definition initHomePage_opening :: "window_obj \<Rightarrow> console_obj \<Rightarrow> window_obj \<times> console_obj" where
  "initHomePage_opening window console =
     (window\<lparr>KAUKA_DEBUG := True\<rparr>,
      console_call ''log'' [Text ''[Home] Initializing home page functionality''] console)"

section \<open>Artist gallery (home-bundle.js, renderArtistGallery and initializeSlideshow)\<close>

text \<open>
  The state that the closures of \<open>initializeSlideshow\<close> share: the slide count it was called
  with, \<^verbatim>\<open>currentSlide\<close>, whether the track element was found, the last movement applied to
  the track (none before the first navigation), and whether the click listeners of the two
  arrows were attached. The console messages under \<^verbatim>\<open>window.KAUKA_DEBUG\<close> are left out here.
\<close>

datatype track_move = GsapTo real | StyleTransform real

record slideshow =
  totalSlides :: int
  currentSlide :: int
  trackFound :: bool
  trackMove :: "track_move option"
  nextListener :: bool
  prevListener :: bool

text \<open>
  \<open>goToSlide\<close> stores the index, then moves the track to \<^verbatim>\<open>-slideIndex * (100 / totalSlides)\<close>
  percent (the exact value; JavaScript rounds it to a double): through GSAP when \<^verbatim>\<open>window.gsap\<close>
  is set, else by assigning the style. When the track was not found no movement happens (GSAP
  ignores the missing target, the style assignment throws after the index was stored).
\<close>

definition goToSlide :: "bool \<Rightarrow> int \<Rightarrow> slideshow \<Rightarrow> slideshow" where
  "goToSlide gsap slideIndex s =
     (let s' = s\<lparr>currentSlide := slideIndex\<rparr>;
          translateX = - real_of_int slideIndex * (100 / real_of_int (totalSlides s))
      in if trackFound s
         then s'\<lparr>trackMove := Some (if gsap then GsapTo translateX else StyleTransform translateX)\<rparr>
         else s')"

definition nextSlide :: "bool \<Rightarrow> slideshow \<Rightarrow> slideshow" where
  "nextSlide gsap s =
     (let s' = s\<lparr>currentSlide := js_rem (currentSlide s + 1) (totalSlides s)\<rparr>
      in goToSlide gsap (currentSlide s') s')"

definition prevSlide :: "bool \<Rightarrow> slideshow \<Rightarrow> slideshow" where
  "prevSlide gsap s =
     (let s' = s\<lparr>currentSlide := js_rem (currentSlide s - 1 + totalSlides s) (totalSlides s)\<rparr>
      in goToSlide gsap (currentSlide s') s')"

text \<open>What \<^verbatim>\<open>container.querySelector\<close> finds in the container.\<close>

record container =
  has_track :: bool
  has_prevBtn :: bool
  has_nextBtn :: bool

text \<open>
  \<open>initializeSlideshow\<close> returns before it creates any state or listener when there is at
  most one slide: \<open>None\<close>.
\<close>

definition initializeSlideshow :: "container \<Rightarrow> int \<Rightarrow> slideshow option" where
  "initializeSlideshow cont nSlides =
     (if nSlides \<le> 1 then None
      else Some \<lparr>totalSlides = nSlides, currentSlide = 0, trackFound = has_track cont,
                 trackMove = None, nextListener = has_nextBtn cont,
                 prevListener = has_prevBtn cont\<rparr>)"

text \<open>A click on an arrow runs the listener attached to it, if any.\<close>

datatype arrow = NextArrow | PrevArrow

fun click :: "bool \<Rightarrow> arrow \<Rightarrow> slideshow option \<Rightarrow> slideshow option" where
  "click gsap a None = None"
| "click gsap NextArrow (Some s) = Some (if nextListener s then nextSlide gsap s else s)"
| "click gsap PrevArrow (Some s) = Some (if prevListener s then prevSlide gsap s else s)"

text \<open>A sequence of calls of the two navigation functions.\<close>

datatype nav = Next | Prev

fun navigate :: "bool \<Rightarrow> nav \<Rightarrow> slideshow \<Rightarrow> slideshow" where
  "navigate gsap Next s = nextSlide gsap s"
| "navigate gsap Prev s = prevSlide gsap s"

definition navigate_all :: "bool \<Rightarrow> nav list \<Rightarrow> slideshow \<Rightarrow> slideshow" where
  "navigate_all gsap ns s = fold (navigate gsap) ns s"

text \<open>
  The gallery that \<open>renderArtistGallery\<close> writes into the container, by its parts: the width
  of the track in percent, one slide per image shown, the style attribute of each arrow, and
  the slideshow state that \<open>initializeSlideshow\<close> leaves (\<open>None\<close> when it returned early). The
  result is \<open>None\<close> when the container is not in the document.
\<close>

record artist =
  url :: string
  imagenes :: "imagen list"

record slide =
  img_src :: string
  img_alt :: string
  img_onclick :: string

record gallery =
  track_width :: nat
  slides :: "slide list"
  prev_style :: string
  next_style :: string
  navigation :: "slideshow option"

definition renderArtistGallery :: "int \<Rightarrow> artist \<Rightarrow> bool \<Rightarrow> nat \<Rightarrow> gallery option" where
  "renderArtistGallery innerWidth art container_found maxImages =
     (if \<not> container_found then None
      else
        (let imagesToShow = take maxImages (imagenes art)
         in Some
              \<lparr>track_width = length imagesToShow * 100,
               slides =
                 map (\<lambda>im. \<lparr>img_src = getResponsiveImageUrl innerWidth im, img_alt = name im,
                             img_onclick = url art\<rparr>) imagesToShow,
               prev_style =
                 ''pointer-events: auto !important; '' @
                 (if length imagesToShow \<le> 1 then ''display:none;'' else []),
               next_style =
                 ''pointer-events: auto !important; '' @
                 (if length imagesToShow \<le> 1 then ''display:none;'' else []),
               navigation =
                 initializeSlideshow
                   \<lparr>has_track = True, has_prevBtn = True, has_nextBtn = True\<rparr>
                   (int (length imagesToShow))\<rparr>))"

section \<open>Horizontal scroll (home-bundle.js, initHorizontalScroll and initHomeHorizontalScroll)\<close>

text \<open>
  What \<open>initHorizontalScroll\<close> needs besides a small viewport: the two libraries and the two
  elements.
\<close>

record hs_env =
  gsap_defined :: bool
  ScrollTrigger_defined :: bool
  container_el :: bool
  scrollable_el :: bool

text \<open>
  The handle that \<open>initHorizontalScroll\<close> returns, by the ScrollTrigger instance it holds.
  The calls made to the library are recorded in order: the creation of an instance, and
  \<^verbatim>\<open>kill\<close> on the instance of a handle.
\<close>

record hs_handle =
  scrollTrigger :: nat

datatype hs_call = Create nat | Kill nat

record hs_state =
  window_innerWidth :: int
  horizontalScroll :: "hs_handle option"
  resizeTimeout :: bool
  live :: "nat list"
  fresh :: nat
  calls :: "hs_call list"

definition initHorizontalScroll :: "hs_env \<Rightarrow> hs_state \<Rightarrow> hs_handle option \<times> hs_state" where
  "initHorizontalScroll env st =
     (if window_innerWidth st \<ge> 768 then (None, st)
      else if \<not> gsap_defined env then (None, st)
      else if \<not> ScrollTrigger_defined env then (None, st)
      else if \<not> container_el env then (None, st)
      else if \<not> scrollable_el env then (None, st)
      else (Some \<lparr>scrollTrigger = fresh st\<rparr>,
            st\<lparr>live := live st @ [fresh st], fresh := Suc (fresh st),
               calls := calls st @ [Create (fresh st)]\<rparr>))"

text \<open>
  \<^verbatim>\<open>horizontalScroll.kill()\<close>: on \<^verbatim>\<open>null\<close> the property read throws a TypeError; on a handle it
  kills the ScrollTrigger instance of the handle.
\<close>

definition kill :: "hs_handle option \<Rightarrow> hs_state \<Rightarrow> js_error + hs_state" where
  "kill handle st =
     (case handle of
        None \<Rightarrow> Inl TypeError
      | Some h \<Rightarrow>
          Inr (st\<lparr>live := removeAll (scrollTrigger h) (live st),
                  calls := calls st @ [Kill (scrollTrigger h)]\<rparr>))"

definition handleHorizontalScroll :: "hs_env \<Rightarrow> hs_state \<Rightarrow> js_error + hs_state" where
  "handleHorizontalScroll env st =
     (let shouldDisable = window_innerWidth st \<ge> 768
      in if shouldDisable \<and> horizontalScroll st \<noteq> None
         then (case kill (horizontalScroll st) st of
                 Inl e \<Rightarrow> Inl e
               | Inr st' \<Rightarrow> Inr (st'\<lparr>horizontalScroll := None\<rparr>))
         else if \<not> shouldDisable \<and> horizontalScroll st = None
         then (let r = initHorizontalScroll env st in Inr ((snd r)\<lparr>horizontalScroll := fst r\<rparr>))
         else Inr st)"

text \<open>
  \<open>initHomeHorizontalScroll\<close>: while the document is loading it only registers itself for
  DOMContentLoaded (\<open>None\<close>); otherwise it runs the handler once and listens to resize.
\<close>

definition initHomeHorizontalScroll ::
  "hs_env \<Rightarrow> bool \<Rightarrow> int \<Rightarrow> (js_error + hs_state) option" where
  "initHomeHorizontalScroll env loading innerWidth =
     (if loading then None
      else Some (handleHorizontalScroll env
                   \<lparr>window_innerWidth = innerWidth, horizontalScroll = None,
                    resizeTimeout = False, live = [], fresh = 0, calls = []\<rparr>))"

text \<open>
  The events after that: a resize to a new width clears the pending timer and starts one;
  the timer, when it fires 250ms after the last resize, runs the handler. A run of events
  ends at the first exception that a callback throws.
\<close>

datatype hs_event = Resize int | TimerFires

fun hs_step :: "hs_env \<Rightarrow> hs_event \<Rightarrow> hs_state \<Rightarrow> js_error + hs_state" where
  "hs_step env (Resize w) st = Inr (st\<lparr>window_innerWidth := w, resizeTimeout := True\<rparr>)"
| "hs_step env TimerFires st =
     (if resizeTimeout st then handleHorizontalScroll env (st\<lparr>resizeTimeout := False\<rparr>)
      else Inr st)"

fun hs_run :: "hs_env \<Rightarrow> hs_event list \<Rightarrow> hs_state \<Rightarrow> js_error + hs_state" where
  "hs_run env [] st = Inr st"
| "hs_run env (ev # evs) st =
     (case hs_step env ev st of
        Inl e \<Rightarrow> Inl e
      | Inr st' \<Rightarrow> hs_run env evs st')"

text \<open>
  A sequence of library calls is orderly when, read from the start with no instance alive,
  every creation happens while none is alive and every kill is of the one alive.
\<close>

fun orderly :: "nat option \<Rightarrow> hs_call list \<Rightarrow> bool" where
  "orderly a [] = True"
| "orderly a (Create i # cs) = (a = None \<and> orderly (Some i) cs)"
| "orderly a (Kill i # cs) = (a = Some i \<and> orderly None cs)"

fun alive_after :: "nat option \<Rightarrow> hs_call list \<Rightarrow> nat option" where
  "alive_after a [] = a"
| "alive_after a (Create i # cs) = alive_after (Some i) cs"
| "alive_after a (Kill i # cs) = alive_after None cs"

section \<open>Calendar title (agenda-bundle.js, updateTitle)\<close>

text \<open>
  A JavaScript \<^verbatim>\<open>Date\<close> of the calendar view, by what \<open>updateTitle\<close> reads of it: the text
  that interpolating it into a template literal gives, and the year, month (1 to 12) and day
  of the month that \<^verbatim>\<open>luxon.DateTime.fromJSDate\<close> reads from it in the local time zone.
\<close>

record js_date =
  date_text :: string
  year :: int
  month :: nat
  day :: nat

text \<open>
  Modelled from the spec: Luxon is a third-party library and not part of the sources. The
  locale is fixed to Spanish for date names; \<^verbatim>\<open>toFormat("d")\<close> is the day of the month without
  padding, \<^verbatim>\<open>toFormat("LLLL")\<close> the full name of the month in the locale (``mayo'', ``abril''),
  and \<^verbatim>\<open>hasSame(other, "month")\<close> holds when both dates fall in the same month of the same
  year. A month outside 1 to 12 does not occur in a Luxon date; the name is empty there.
\<close>

definition month_names_es :: "string list" where
  "month_names_es =
     [''enero'', ''febrero'', ''marzo'', ''abril'', ''mayo'', ''junio'', ''julio'', ''agosto'',
      ''septiembre'', ''octubre'', ''noviembre'', ''diciembre'']"

definition toFormat_d :: "js_date \<Rightarrow> string" where
  "toFormat_d d = string_of_nat (day d)"

definition toFormat_LLLL :: "js_date \<Rightarrow> string" where
  "toFormat_LLLL d =
     (if 1 \<le> month d \<and> month d \<le> 12 then month_names_es ! (month d - 1) else [])"

definition hasSame_month :: "js_date \<Rightarrow> js_date \<Rightarrow> bool" where
  "hasSame_month a b = (year a = year b \<and> month a = month b)"

text \<open>
  The view of the context (\<^verbatim>\<open>context.view\<close>), and the document as \<open>updateTitle\<close> sees it:
  for a selector the \<^verbatim>\<open>innerHTML\<close> of the first element it matches (none when it matches
  nothing), and the \<^verbatim>\<open>colspan\<close> attribute of every day-header cell
  (\<^verbatim>\<open>.fc-list-day th\<close>), \<open>None\<close> when the attribute is not set.
\<close>

record view =
  view_type :: string
  currentStart :: js_date
  currentEnd :: js_date

record agenda_document =
  elements :: "string \<rightharpoonup> string"
  list_day_ths :: "js_string list"

definition updateTitle ::
  "window_obj option \<Rightarrow> string \<Rightarrow> view \<Rightarrow> agenda_document \<times> console_obj
   \<Rightarrow> agenda_document \<times> console_obj" where
  \<open>updateTitle window element v dc =
     (let doc = fst dc;
          titleEl = elements doc element;
          c1 = Debug_log window (Text (''[Agenda] current view type: '' @ view_type v)) [] (snd dc)
      in case titleEl of
           None \<Rightarrow> (doc, c1)
         | Some old \<Rightarrow>
             (let week =
                (if view_type v = ''listWeek''
                 then
                   (let c2 = Debug_info window
                               (Text (''[Agenda] current week start: '' @
                                      date_text (currentStart v))) [] c1;
                        c3 = Debug_info window
                               (Text (''[Agenda] current week end: '' @
                                      date_text (currentEnd v))) [] c2;
                        startDate = currentStart v;
                        endDate = currentEnd v;
                        isSameMonth = hasSame_month startDate endDate;
                        c4 = Debug_info window
                               (Text (''[Agenda] isSameMonth: '' @
                                      (if isSameMonth then ''true'' else ''false''))) [] c3;
                        titleTemplate =
                          (if isSameMonth
                           then ''\<newline>            <div class="agenda-days">'' @
                                toFormat_d startDate @ '' - '' @ toFormat_d endDate @
                                ''</div>  \<newline>            <div class="agenda-month">'' @
                                toFormat_LLLL startDate @ ''</div>''
                           else ''\<newline>            <div class="agenda-days">'' @
                                toFormat_d startDate @ '' de '' @ toFormat_LLLL startDate @
                                '' - '' @ toFormat_d endDate @ '' de '' @
                                toFormat_LLLL endDate @ ''</div>'')
                    in (doc\<lparr>elements := (elements doc)(element \<mapsto> titleTemplate),
                            list_day_ths := map (\<lambda>el. Some ''4'') (list_day_ths doc)\<rparr>,
                        c4))
                 else (doc, c1))
              in if view_type v = ''listMonth''
                 then ((fst week)\<lparr>elements :=
                          (elements (fst week))
                            (element \<mapsto>
                               ''\<newline>            <div class="agenda-month">'' @
                               toFormat_LLLL (currentStart v) @ ''</div>'')\<rparr>,
                       snd week)
                 else week))\<close>

section \<open>Example inputs\<close>

text \<open>Concrete values on which the theorems below are instantiated.\<close>

definition example_imagen :: imagen where
  "example_imagen =
     \<lparr>name = ''obra'', responsive = map_of [(''sm'', []), (''md'', ''md.jpg'')],
      original_src = ''original.jpg''\<rparr>"

definition example_image_list :: "image_set list" where
  "example_image_list =
     [map_of [(''all'', ''uno-all.jpg''), (''original'', ''uno.jpg'')],
      map_of [(''all'', ''dos-all.jpg''), (''md'', ''dos-md.jpg''), (''original'', ''dos.jpg'')]]"

definition example_img_document :: img_document where
  "example_img_document = map_of [(''section-img-one'', Some ''placeholder.jpg'')]"

definition example_console :: console_obj where
  "example_console = \<lparr>methods = [''log'', ''warn'', ''error'', ''debug'', ''info''], emitted = []\<rparr>"

definition example_window :: window_obj where
  "example_window = \<lparr>KAUKA_CONFIG = Some \<lparr>debug = Some (JBool False)\<rparr>, KAUKA_DEBUG = False\<rparr>"

text \<open>A network on which every request is answered with status 404 and no JSON body.\<close>

definition not_found_network :: network where
  "not_found_network u = Response 404 None"

definition example_container :: container where
  "example_container = \<lparr>has_track = True, has_prevBtn = True, has_nextBtn = True\<rparr>"

definition example_slideshow :: slideshow where
  "example_slideshow =
     \<lparr>totalSlides = 3, currentSlide = 0, trackFound = True, trackMove = None,
      nextListener = True, prevListener = True\<rparr>"

definition example_artist :: artist where
  "example_artist = \<lparr>url = ''/artistas/uno/'', imagenes = [example_imagen]\<rparr>"

definition example_env :: hs_env where
  "example_env =
     \<lparr>gsap_defined = True, ScrollTrigger_defined = True, container_el = True,
      scrollable_el = True\<rparr>"

definition example_week :: view where
  "example_week =
     \<lparr>view_type = ''listWeek'',
      currentStart = \<lparr>date_text = ''Mon May 05 2025 00:00:00 GMT-0500'', year = 2025,
                       month = 5, day = 5\<rparr>,
      currentEnd = \<lparr>date_text = ''Sun May 11 2025 00:00:00 GMT-0500'', year = 2025,
                     month = 5, day = 11\<rparr>\<rparr>"

definition example_agenda_document :: agenda_document where
  "example_agenda_document =
     \<lparr>elements = map_of [(''.fc-toolbar-title'', ''5 - 11 de mayo de 2025'')],
      list_day_ths = [None, None]\<rparr>"

section \<open>Invariants of the horizontal scroll controller\<close>

text \<open>
  The structural invariant: the live ScrollTrigger instances are exactly the one of the
  current handle, and the recorded calls are orderly and end with that instance alive. A
  state is settled when a resize timer is still pending, or the handle exists exactly when
  the width is below 768px. The environment is ready when the libraries and both elements
  are present.
\<close>

definition hs_inv :: "hs_state \<Rightarrow> bool" where
  "hs_inv st =
     (live st = (case horizontalScroll st of None \<Rightarrow> [] | Some h \<Rightarrow> [scrollTrigger h])
      \<and> orderly None (calls st)
      \<and> alive_after None (calls st) = map_option scrollTrigger (horizontalScroll st))"

definition hs_settled :: "hs_state \<Rightarrow> bool" where
  "hs_settled st =
     (resizeTimeout st \<or> ((horizontalScroll st \<noteq> None) = (window_innerWidth st < 768)))"

definition hs_ready :: "hs_env \<Rightarrow> bool" where
  "hs_ready env =
     (gsap_defined env \<and> ScrollTrigger_defined env \<and> container_el env \<and> scrollable_el env)"

section \<open>Properties of the breakpoint resolver\<close>

lemma bp_rank_simps:
  "bp_rank ''all'' = 0" "bp_rank ''sm'' = 1" "bp_rank ''md'' = 2"
  "bp_rank ''lg'' = 3" "bp_rank ''xl'' = 4" "bp_rank ''2xl'' = 5"
  by (simp_all add: bp_rank_def breakpoint_order_def)

text \<open>
  Claim C5. For every viewport width \<open>w\<close>, \<open>getBreakpoint\<close> returns one of the six labels, the
  one that the threshold table gives: \<open>2xl\<close> from 1536, \<open>xl\<close> from 1280, \<open>lg\<close> from 1024,
  \<open>md\<close> from 768, \<open>sm\<close> from 640, and \<open>all\<close> below. The label never decreases, in the
  order \<open>all < sm < md < lg < xl < 2xl\<close>, when the width grows; at 639 it is \<open>all\<close>, at 640
  \<open>sm\<close> and at 1536 \<open>2xl\<close>.
\<close>

theorem getBreakpoint_table:
  "getBreakpoint w \<in> set breakpoint_order
   \<and> (w \<ge> 1536 \<longrightarrow> getBreakpoint w = ''2xl'')
   \<and> (1280 \<le> w \<and> w < 1536 \<longrightarrow> getBreakpoint w = ''xl'')
   \<and> (1024 \<le> w \<and> w < 1280 \<longrightarrow> getBreakpoint w = ''lg'')
   \<and> (768 \<le> w \<and> w < 1024 \<longrightarrow> getBreakpoint w = ''md'')
   \<and> (640 \<le> w \<and> w < 768 \<longrightarrow> getBreakpoint w = ''sm'')
   \<and> (w < 640 \<longrightarrow> getBreakpoint w = ''all'')
   \<and> (\<forall>w'. w \<le> w' \<longrightarrow> bp_rank (getBreakpoint w) \<le> bp_rank (getBreakpoint w'))
   \<and> getBreakpoint 639 = ''all'' \<and> getBreakpoint 640 = ''sm'' \<and> getBreakpoint 1536 = ''2xl''"
proof -
  have mem: "getBreakpoint w \<in> set breakpoint_order"
    by (simp add: getBreakpoint_def breakpoint_order_def)
  have tab: "(w \<ge> 1536 \<longrightarrow> getBreakpoint w = ''2xl'')
   \<and> (1280 \<le> w \<and> w < 1536 \<longrightarrow> getBreakpoint w = ''xl'')
   \<and> (1024 \<le> w \<and> w < 1280 \<longrightarrow> getBreakpoint w = ''lg'')
   \<and> (768 \<le> w \<and> w < 1024 \<longrightarrow> getBreakpoint w = ''md'')
   \<and> (640 \<le> w \<and> w < 768 \<longrightarrow> getBreakpoint w = ''sm'')
   \<and> (w < 640 \<longrightarrow> getBreakpoint w = ''all'')"
    by (simp add: getBreakpoint_def)
  have mono: "bp_rank (getBreakpoint w) \<le> bp_rank (getBreakpoint w')" if "w \<le> w'" for w'
    using that by (simp add: getBreakpoint_def bp_rank_simps)
  have ex: "getBreakpoint 639 = ''all'' \<and> getBreakpoint 640 = ''sm'' \<and> getBreakpoint 1536 = ''2xl''"
    by (simp add: getBreakpoint_def)
  from mem tab mono ex show ?thesis by blast
qed

theorem getBreakpoint_table_witness:
  "(768 \<le> (800::int) \<and> (800::int) < 1024) \<and> getBreakpoint 800 = ''md''
   \<and> (800::int) \<le> 1300 \<and> bp_rank (getBreakpoint 800) \<le> bp_rank (getBreakpoint 1300)"
proof -
  have h: "768 \<le> (800::int) \<and> (800::int) < 1024" and h': "(800::int) \<le> 1300" by simp_all
  from getBreakpoint_table [of 800] h have "getBreakpoint 800 = ''md''" by blast
  moreover from getBreakpoint_table [of 800] h'
  have "bp_rank (getBreakpoint 800) \<le> bp_rank (getBreakpoint 1300)" by blast
  ultimately show ?thesis using h h' by blast
qed

section \<open>Properties of the image utilities\<close>

text \<open>
  Claim C6, counterexample. An entry that is present but empty is not returned: at the
  \<open>sm\<close> breakpoint (width 700) the example image has the empty string under \<open>sm\<close>, and
  \<open>getResponsiveImageUrl\<close> returns the original URL.
\<close>

theorem getResponsiveImageUrl_empty_entry_counterexample:
  "responsive example_imagen (getBreakpoint 700) = Some []
   \<and> getResponsiveImageUrl 700 example_imagen = ''original.jpg''"
  by (simp add: example_imagen_def getResponsiveImageUrl_def getBreakpoint_def)

text \<open>
  Claim C6, as amended. For every image and width, \<open>getResponsiveImageUrl\<close> returns the
  entry of \<open>responsive\<close> for the current breakpoint when that entry is present and not the
  empty string; when the entry is absent or empty it returns \<open>original.src\<close>. It is a total
  function on images that have both objects: an absent entry raises nothing.
\<close>

theorem getResponsiveImageUrl_fallback:
  "(\<forall>u. responsive im (getBreakpoint w) = Some u \<and> u \<noteq> [] \<longrightarrow> getResponsiveImageUrl w im = u)
   \<and> (responsive im (getBreakpoint w) = None \<or> responsive im (getBreakpoint w) = Some []
        \<longrightarrow> getResponsiveImageUrl w im = original_src im)"
  by (auto simp add: getResponsiveImageUrl_def)

theorem getResponsiveImageUrl_fallback_witness:
  "responsive example_imagen (getBreakpoint 800) = Some ''md.jpg''
   \<and> getResponsiveImageUrl 800 example_imagen = ''md.jpg''
   \<and> responsive example_imagen (getBreakpoint 1100) = None
   \<and> getResponsiveImageUrl 1100 example_imagen = ''original.jpg''"
proof -
  have a: "responsive example_imagen (getBreakpoint 800) = Some ''md.jpg''"
    by (simp add: example_imagen_def getBreakpoint_def)
  have b: "responsive example_imagen (getBreakpoint 1100) = None"
    by (simp add: example_imagen_def getBreakpoint_def)
  have o: "original_src example_imagen = ''original.jpg''"
    by (simp add: example_imagen_def)
  from getResponsiveImageUrl_fallback [of example_imagen 800] a
  have "getResponsiveImageUrl 800 example_imagen = ''md.jpg''" by simp
  moreover from getResponsiveImageUrl_fallback [of example_imagen 1100] b o
  have "getResponsiveImageUrl 1100 example_imagen = ''original.jpg''" by simp
  ultimately show ?thesis using a b by simp
qed

lemma random_index_in_range:
  assumes "xs \<noteq> []" "0 \<le> r" "r < 1"
  shows "0 \<le> \<lfloor>r * real (length xs)\<rfloor>" "nat \<lfloor>r * real (length xs)\<rfloor> < length xs"
proof -
  have n: "0 < real (length xs)" using assms(1) by simp
  show "0 \<le> \<lfloor>r * real (length xs)\<rfloor>" using assms(2) by simp
  have "r * real (length xs) < real (length xs)" using assms(3) n by simp
  then have "\<lfloor>r * real (length xs)\<rfloor> < int (length xs)"
    by (simp add: floor_less_iff)
  moreover have "0 < length xs" using assms(1) by simp
  ultimately show "nat \<lfloor>r * real (length xs)\<rfloor> < length xs"
    by linarith
qed

text \<open>
  Claim C10. For every non-empty image list, with the random draw in \<open>[0, 1)\<close> and the image
  element present, \<open>getRandomImage\<close> assigns to \<open>src\<close> the entry of the chosen image set for
  the current breakpoint, as it is: when the set has no such entry, \<^verbatim>\<open>undefined\<close> (\<open>None\<close>) is
  assigned, whatever else the set holds. \<open>getResponsiveImageUrl\<close>, in contrast, returns the
  original URL when the entry is absent.
\<close>

theorem getRandomImage_assigns_entry_without_fallback:
  assumes "xs \<noteq> []" and "0 \<le> r" and "r < 1" and "doc ident = Some old"
  shows "nat \<lfloor>r * real (length xs)\<rfloor> < length xs
    \<and> getRandomImage w r (Some xs) ident doc
        = doc(ident \<mapsto> (xs ! nat \<lfloor>r * real (length xs)\<rfloor>) (getBreakpoint w))
    \<and> ((xs ! nat \<lfloor>r * real (length xs)\<rfloor>) (getBreakpoint w) = None
         \<longrightarrow> getRandomImage w r (Some xs) ident doc ident = Some None)
    \<and> (\<forall>im. responsive im (getBreakpoint w) = None
         \<longrightarrow> getResponsiveImageUrl w im = original_src im)"
proof -
  note idx = random_index_in_range [OF assms(1-3)]
  have e: "getRandomElement (Some xs) r = Some (xs ! nat \<lfloor>r * real (length xs)\<rfloor>)"
    using idx assms(1) by (simp add: getRandomElement_def Let_def)
  have g: "getRandomImage w r (Some xs) ident doc
        = doc(ident \<mapsto> (xs ! nat \<lfloor>r * real (length xs)\<rfloor>) (getBreakpoint w))"
    using e assms(4) by (simp add: getRandomImage_def Let_def)
  have f: "\<forall>im. responsive im (getBreakpoint w) = None
         \<longrightarrow> getResponsiveImageUrl w im = original_src im"
    by (simp add: getResponsiveImageUrl_def)
  from idx(2) g f show ?thesis by simp
qed

theorem getRandomImage_assigns_entry_without_fallback_witness:
  "getRandomImage 700 (3/4) (Some example_image_list) ''section-img-one'' example_img_document
     ''section-img-one'' = Some None
   \<and> (example_image_list ! 1) ''original'' = Some ''dos.jpg''"
proof -
  have a: "example_image_list \<noteq> []" by (simp add: example_image_list_def)
  have d: "example_img_document ''section-img-one'' = Some (Some ''placeholder.jpg'')"
    by (simp add: example_img_document_def)
  have i: "nat \<lfloor>(3/4 :: real) * real (length example_image_list)\<rfloor> = 1"
    by (simp add: example_image_list_def)
  have n: "(example_image_list ! 1) (getBreakpoint 700) = None"
    by (simp add: example_image_list_def getBreakpoint_def)
  have o: "(example_image_list ! 1) ''original'' = Some ''dos.jpg''"
    by (simp add: example_image_list_def)
  from getRandomImage_assigns_entry_without_fallback
         [OF a, of "3/4" example_img_document "''section-img-one''" "Some ''placeholder.jpg''" 700] d i n
  have "getRandomImage 700 (3/4) (Some example_image_list) ''section-img-one''
          example_img_document ''section-img-one'' = Some None"
    by simp
  then show ?thesis using o by simp
qed

section \<open>Properties of the debug utility\<close>

lemma debugLog_disabled: "\<not> isEnabled window \<Longrightarrow> debugLog window level m args c = c"
  by (simp add: debugLog_def isEnabled_def)

lemma updateTitle_console_disabled:
  "\<not> isEnabled window \<Longrightarrow> snd (updateTitle window el v (d, c)) = c"
  by (simp add: updateTitle_def Let_def Debug_log_def Debug_info_def debugLog_disabled
      split: option.splits)

text \<open>
  Claim C9, as amended. The logging operations of the debug utility (\<open>debugLog\<close> and the five
  functions of \<open>Debug\<close>, and with them \<open>updateTitle\<close>, which logs through \<open>Debug\<close> only) emit
  console output only when \<^verbatim>\<open>window.KAUKA_CONFIG.debug\<close> is \<^verbatim>\<open>true\<close>: when the window, the
  configuration or the flag is absent, or the flag is anything else, they leave the console
  as it was.
\<close>

theorem debug_sink_gated:
  "(isEnabled window \<longleftrightarrow>
      (\<exists>w config. window = Some w \<and> KAUKA_CONFIG w = Some config
         \<and> debug config = Some (JBool True)))
   \<and> (emitted (debugLog window level m args c) \<noteq> emitted c \<longrightarrow> isEnabled window)
   \<and> (\<not> isEnabled window \<longrightarrow>
         debugLog window level m args c = c
         \<and> Debug_log window m args c = c \<and> Debug_warn window m args c = c
         \<and> Debug_error window m args c = c \<and> Debug_debug window m args c = c
         \<and> Debug_info window m args c = c
         \<and> snd (updateTitle window el v (d, c)) = c)"
proof -
  have a: "isEnabled window \<longleftrightarrow>
      (\<exists>w config. window = Some w \<and> KAUKA_CONFIG w = Some config
         \<and> debug config = Some (JBool True))"
    by (auto simp add: isEnabled_def split: option.splits)
  have b: "emitted (debugLog window level m args c) \<noteq> emitted c \<longrightarrow> isEnabled window"
    by (cases "isEnabled window") (simp_all add: debugLog_disabled)
  have c: "\<not> isEnabled window \<longrightarrow>
         debugLog window level m args c = c
         \<and> Debug_log window m args c = c \<and> Debug_warn window m args c = c
         \<and> Debug_error window m args c = c \<and> Debug_debug window m args c = c
         \<and> Debug_info window m args c = c"
    by (simp add: debugLog_disabled Debug_log_def Debug_warn_def Debug_error_def
        Debug_debug_def Debug_info_def)
  have d: "\<not> isEnabled window \<longrightarrow> snd (updateTitle window el v (d, c)) = c"
    by (simp add: updateTitle_console_disabled)
  from a b c d show ?thesis by blast
qed

theorem debug_sink_gated_witness:
  "\<not> isEnabled (Some example_window)
   \<and> Debug_log (Some example_window) (Text ''[Agenda] DOM ready'') [] example_console
       = example_console
   \<and> isEnabled (Some (example_window\<lparr>KAUKA_CONFIG := Some \<lparr>debug = Some (JBool True)\<rparr>\<rparr>))
   \<and> emitted (debugLog (Some (example_window\<lparr>KAUKA_CONFIG := Some \<lparr>debug = Some (JBool True)\<rparr>\<rparr>))
                ''log'' (Text ''[Agenda] DOM ready'') [] example_console)
       \<noteq> emitted example_console"
proof -
  have off: "\<not> isEnabled (Some example_window)"
    by (simp add: isEnabled_def example_window_def)
  have out: "emitted (debugLog (Some (example_window\<lparr>KAUKA_CONFIG := Some \<lparr>debug = Some (JBool True)\<rparr>\<rparr>))
                ''log'' (Text ''[Agenda] DOM ready'') [] example_console)
       \<noteq> emitted example_console"
    by (simp add: debugLog_def example_console_def console_call_def)
  from debug_sink_gated [of "Some example_window" _ "Text ''[Agenda] DOM ready''" "[]" example_console] off
  have "Debug_log (Some example_window) (Text ''[Agenda] DOM ready'') [] example_console
       = example_console" by blast
  moreover from debug_sink_gated
      [of "Some (example_window\<lparr>KAUKA_CONFIG := Some \<lparr>debug = Some (JBool True)\<rparr>\<rparr>)"
          "''log''" "Text ''[Agenda] DOM ready''" "[]" example_console] out
  have "isEnabled (Some (example_window\<lparr>KAUKA_CONFIG := Some \<lparr>debug = Some (JBool True)\<rparr>\<rparr>))"
    by blast
  ultimately show ?thesis using off out by blast
qed

text \<open>
  Claim C9, counterexample. With the flag set to \<^verbatim>\<open>false\<close>, the opening of \<open>initHomePage\<close>
  writes its message to the console, and \<open>fetchArtists\<close> writes the error of a request
  answered with status 404.
\<close>

theorem ungated_console_output_counterexample:
  "\<not> isEnabled (Some example_window)
   \<and> emitted (snd (initHomePage_opening example_window example_console))
       = [(''log'', [Text ''[Home] Initializing home page functionality''])]
   \<and> emitted (snd (fetchArtists example_window not_found_network [] example_console))
       = [(''error'', [Text ''Error fetching artists data:'', Thrown (HttpError 404)])]"
  by (simp add: isEnabled_def example_window_def initHomePage_opening_def example_console_def
      console_call_def fetchArtists_def catch_p_def then_p_def fetch_def response_json_def
      response_ok_def not_found_network_def)

section \<open>Properties of the fetchers\<close>

lemma then_response_json:
  "fst (then_p (fetch net u c) response_json) =
     (case net u of
        NetworkError \<Rightarrow> Rejected TransportError
      | Response status body \<Rightarrow>
          if \<not> response_ok status then Rejected (HttpError status)
          else (case body of None \<Rightarrow> Rejected SyntaxError | Some data \<Rightarrow> Fulfilled data))"
  by (simp add: then_p_def fetch_def response_json_def split: fetch_outcome.splits option.splits)

lemma fetchProgramaCuratorial_result:
  "fst (fetchProgramaCuratorial window net baseURL c) =
     (case fst (then_p (fetch net (baseURL @ ''/programa-curatorial/index.json'') c) response_json) of
        Fulfilled data \<Rightarrow> Fulfilled data
      | Rejected e \<Rightarrow> Fulfilled (JArr []))"
  by (simp add: fetchProgramaCuratorial_def catch_p_def then_p_def split: promise.splits)

lemma fetchArtists_result:
  "fst (fetchArtists window net baseURL c) =
     (case fst (then_p (fetch net (baseURL @ ''/artistas/index.json'') c) response_json) of
        Fulfilled data \<Rightarrow>
          if KAUKA_DEBUG window \<and> data = JNull then Fulfilled (JArr []) else Fulfilled data
      | Rejected e \<Rightarrow> Fulfilled (JArr []))"
  by (simp add: fetchArtists_def catch_p_def then_p_def split: promise.splits)

text \<open>
  Claim C2. For every outcome of the request, the promise that \<open>fetchProgramaCuratorial\<close> or
  \<open>fetchArtists\<close> returns is fulfilled, never rejected. When the request fails in transport,
  or is answered with a status outside 200 to 299, or with a body that is not JSON, the
  promise is fulfilled with the empty array.
\<close>

theorem fetchers_resolve_with_empty_array_on_failure:
  "(\<exists>v. fst (fetchProgramaCuratorial window net baseURL c) = Fulfilled v)
   \<and> (\<exists>v. fst (fetchArtists window net baseURL c) = Fulfilled v)
   \<and> (net (baseURL @ ''/programa-curatorial/index.json'') = NetworkError
        \<or> (\<exists>status body. net (baseURL @ ''/programa-curatorial/index.json'') = Response status body
              \<and> (status < 200 \<or> 299 < status \<or> body = None))
      \<longrightarrow> fst (fetchProgramaCuratorial window net baseURL c) = Fulfilled (JArr []))
   \<and> (net (baseURL @ ''/artistas/index.json'') = NetworkError
        \<or> (\<exists>status body. net (baseURL @ ''/artistas/index.json'') = Response status body
              \<and> (status < 200 \<or> 299 < status \<or> body = None))
      \<longrightarrow> fst (fetchArtists window net baseURL c) = Fulfilled (JArr []))"
proof -
  have p: "\<exists>v. fst (fetchProgramaCuratorial window net baseURL c) = Fulfilled v"
    by (simp add: fetchProgramaCuratorial_result split: promise.splits)
  have a: "\<exists>v. fst (fetchArtists window net baseURL c) = Fulfilled v"
    by (simp add: fetchArtists_result split: promise.splits)
  have pf: "net (baseURL @ ''/programa-curatorial/index.json'') = NetworkError
        \<or> (\<exists>status body. net (baseURL @ ''/programa-curatorial/index.json'') = Response status body
              \<and> (status < 200 \<or> 299 < status \<or> body = None))
      \<longrightarrow> fst (fetchProgramaCuratorial window net baseURL c) = Fulfilled (JArr [])"
    by (auto simp add: fetchProgramaCuratorial_result then_response_json response_ok_def)
  have af: "net (baseURL @ ''/artistas/index.json'') = NetworkError
        \<or> (\<exists>status body. net (baseURL @ ''/artistas/index.json'') = Response status body
              \<and> (status < 200 \<or> 299 < status \<or> body = None))
      \<longrightarrow> fst (fetchArtists window net baseURL c) = Fulfilled (JArr [])"
    by (auto simp add: fetchArtists_result then_response_json response_ok_def)
  from p a pf af show ?thesis by blast
qed

theorem fetchers_resolve_with_empty_array_on_failure_witness:
  "not_found_network (''https://kauka.example'' @ ''/artistas/index.json'') = Response 404 None
   \<and> fst (fetchArtists example_window not_found_network ''https://kauka.example'' example_console)
       = Fulfilled (JArr [])
   \<and> fst (fetchProgramaCuratorial example_window not_found_network ''https://kauka.example''
            example_console) = Fulfilled (JArr [])"
proof -
  have a: "not_found_network (''https://kauka.example'' @ ''/artistas/index.json'') = Response 404 None"
    and p: "not_found_network (''https://kauka.example'' @ ''/programa-curatorial/index.json'')
              = Response 404 None"
    by (simp_all add: not_found_network_def)
  have s: "(299::nat) < 404" by simp
  from fetchers_resolve_with_empty_array_on_failure
         [of example_window not_found_network "''https://kauka.example''" example_console] a p s
  show ?thesis by blast
qed

section \<open>Properties of the slideshow\<close>

lemma js_rem_nonneg: "0 \<le> a \<Longrightarrow> 0 < b \<Longrightarrow> js_rem a b = a mod b"
  by (simp add: js_rem_def sgn_if)

lemma totalSlides_goToSlide [simp]: "totalSlides (goToSlide g i s) = totalSlides s"
  by (simp add: goToSlide_def Let_def)

lemma currentSlide_goToSlide [simp]: "currentSlide (goToSlide g i s) = i"
  by (simp add: goToSlide_def Let_def)

lemma totalSlides_nextSlide [simp]: "totalSlides (nextSlide g s) = totalSlides s"
  by (simp add: nextSlide_def Let_def)

lemma totalSlides_prevSlide [simp]: "totalSlides (prevSlide g s) = totalSlides s"
  by (simp add: prevSlide_def Let_def)

lemma currentSlide_nextSlide:
  "currentSlide (nextSlide g s) = js_rem (currentSlide s + 1) (totalSlides s)"
  by (simp add: nextSlide_def Let_def)

lemma currentSlide_prevSlide:
  "currentSlide (prevSlide g s) = js_rem (currentSlide s - 1 + totalSlides s) (totalSlides s)"
  by (simp add: prevSlide_def Let_def)

lemma nextSlide_mod:
  assumes "0 \<le> currentSlide s" "currentSlide s < totalSlides s"
  shows "currentSlide (nextSlide g s) = (currentSlide s + 1) mod totalSlides s"
  using assms by (simp add: currentSlide_nextSlide js_rem_nonneg)

lemma prevSlide_mod:
  assumes "0 \<le> currentSlide s" "currentSlide s < totalSlides s"
  shows "currentSlide (prevSlide g s) = (currentSlide s - 1) mod totalSlides s"
proof -
  have "0 \<le> currentSlide s - 1 + totalSlides s" "0 < totalSlides s" using assms by simp_all
  then have "currentSlide (prevSlide g s) = (currentSlide s - 1 + totalSlides s) mod totalSlides s"
    by (simp add: currentSlide_prevSlide js_rem_nonneg)
  then show ?thesis by simp
qed

lemma totalSlides_funpow_nextSlide [simp]:
  "totalSlides ((nextSlide g ^^ k) s) = totalSlides s"
  by (induction k) simp_all

lemma funpow_nextSlide:
  assumes "0 < totalSlides s" "currentSlide s = 0"
  shows "currentSlide ((nextSlide g ^^ k) s) = int k mod totalSlides s"
proof (induction k)
  case 0
  then show ?case using assms by simp
next
  case (Suc k)
  let ?t = "(nextSlide g ^^ k) s"
  have r: "0 \<le> currentSlide ?t" "currentSlide ?t < totalSlides ?t"
    using Suc assms(1) by simp_all
  have "currentSlide (nextSlide g ?t) = (currentSlide ?t + 1) mod totalSlides ?t"
    by (rule nextSlide_mod [OF r])
  then show ?case using Suc by (simp add: mod_simps add.commute)
qed

lemma initializeSlideshow_Some:
  "initializeSlideshow cont n = Some s \<Longrightarrow> 2 \<le> n \<and> totalSlides s = n \<and> currentSlide s = 0"
  by (auto simp add: initializeSlideshow_def split: if_splits)

lemma navigate_range:
  assumes "0 \<le> currentSlide s" "currentSlide s < totalSlides s"
  shows "0 \<le> currentSlide (navigate g n s) \<and> currentSlide (navigate g n s) < totalSlides s
         \<and> totalSlides (navigate g n s) = totalSlides s"
proof -
  have p: "0 < totalSlides s" using assms by simp
  show ?thesis
    using assms p by (cases n) (simp_all add: nextSlide_mod prevSlide_mod)
qed

lemma navigate_all_range:
  assumes "0 \<le> currentSlide s" "currentSlide s < totalSlides s"
  shows "0 \<le> currentSlide (navigate_all g ns s)
         \<and> currentSlide (navigate_all g ns s) < totalSlides s
         \<and> totalSlides (navigate_all g ns s) = totalSlides s"
  using assms
proof (induction ns arbitrary: s)
  case Nil
  then show ?case by (simp add: navigate_all_def)
next
  case (Cons n ns)
  from navigate_range [OF Cons.prems, of g n]
  have a: "0 \<le> currentSlide (navigate g n s)"
    and b: "currentSlide (navigate g n s) < totalSlides (navigate g n s)"
    and t: "totalSlides (navigate g n s) = totalSlides s" by simp_all
  from Cons.IH [OF a b] t show ?case by (simp add: navigate_all_def)
qed

text \<open>
  Claim C3. For a slideshow of \<open>n \<ge> 2\<close> slides, \<open>nextSlide\<close> moves an index in \<open>[0, n)\<close> to
  the index plus one modulo \<open>n\<close> and \<open>prevSlide\<close> to the index minus one modulo \<open>n\<close>. From
  the initial index 0, \<open>n\<close> calls of \<open>nextSlide\<close> lead back to 0, and one call of \<open>prevSlide\<close>
  leads to \<open>n - 1\<close>.
\<close>

theorem slideshow_navigation_wraps:
  assumes "2 \<le> n"
  shows "\<exists>s0. initializeSlideshow cont n = Some s0 \<and> currentSlide s0 = 0
     \<and> currentSlide ((nextSlide g ^^ nat n) s0) = 0
     \<and> currentSlide (prevSlide g s0) = n - 1
     \<and> (\<forall>s. totalSlides s = n \<and> 0 \<le> currentSlide s \<and> currentSlide s < n \<longrightarrow>
           currentSlide (nextSlide g s) = (currentSlide s + 1) mod n
           \<and> currentSlide (prevSlide g s) = (currentSlide s - 1) mod n)"
proof -
  obtain s0 where s0: "initializeSlideshow cont n = Some s0"
    using assms by (simp add: initializeSlideshow_def)
  then have t: "totalSlides s0 = n" and c: "currentSlide s0 = 0"
    using initializeSlideshow_Some by blast+
  have "currentSlide ((nextSlide g ^^ nat n) s0) = int (nat n) mod n"
    using funpow_nextSlide [where s = s0 and g = g and k = "nat n"] t c assms by simp
  then have cyc: "currentSlide ((nextSlide g ^^ nat n) s0) = 0" using assms by simp
  have "currentSlide (prevSlide g s0) = (0 - 1) mod n"
    using prevSlide_mod [where s = s0 and g = g] t c assms by simp
  then have wrap: "currentSlide (prevSlide g s0) = n - 1"
    using assms by (simp add: zmod_minus1)
  have step: "\<forall>s. totalSlides s = n \<and> 0 \<le> currentSlide s \<and> currentSlide s < n \<longrightarrow>
           currentSlide (nextSlide g s) = (currentSlide s + 1) mod n
           \<and> currentSlide (prevSlide g s) = (currentSlide s - 1) mod n"
    using nextSlide_mod prevSlide_mod by blast
  from s0 c cyc wrap step show ?thesis by blast
qed

theorem slideshow_navigation_wraps_witness:
  "(2::int) \<le> 3
   \<and> initializeSlideshow example_container 3 = Some example_slideshow
   \<and> currentSlide ((nextSlide True ^^ nat 3) example_slideshow) = 0
   \<and> currentSlide (prevSlide True example_slideshow) = 2
   \<and> currentSlide (nextSlide True example_slideshow) = 1"
proof -
  have h: "(2::int) \<le> 3" by simp
  have i: "initializeSlideshow example_container 3 = Some example_slideshow"
    by (simp add: initializeSlideshow_def example_container_def example_slideshow_def)
  have r: "totalSlides example_slideshow = 3 \<and> 0 \<le> currentSlide example_slideshow
           \<and> currentSlide example_slideshow < 3"
    and z: "currentSlide example_slideshow = 0"
    by (simp_all add: example_slideshow_def)
  from slideshow_navigation_wraps [OF h, of example_container True] i r z
  have "currentSlide ((nextSlide True ^^ nat 3) example_slideshow) = 0
     \<and> currentSlide (prevSlide True example_slideshow) = 2
     \<and> currentSlide (nextSlide True example_slideshow) = 1"
    by auto
  then show ?thesis using h i by simp
qed

text \<open>
  Claim C4. In every state reached from the one that \<open>initializeSlideshow\<close> creates for \<open>n\<close>
  slides, by any sequence of calls of \<open>nextSlide\<close> and \<open>prevSlide\<close>, the index is an integer
  in \<open>[0, n)\<close> and the slide count is still \<open>n\<close>. The bound comes from the remainder, not
  from clamping: \<open>nextSlide\<close> at \<open>n - 1\<close> gives 0 and \<open>prevSlide\<close> at 0 gives \<open>n - 1\<close>.
\<close>

theorem slideshow_index_in_range:
  assumes "initializeSlideshow cont n = Some s0"
  shows "0 \<le> currentSlide (navigate_all g ns s0) \<and> currentSlide (navigate_all g ns s0) < n
     \<and> totalSlides (navigate_all g ns s0) = n
     \<and> (\<forall>s. totalSlides s = n \<and> currentSlide s = n - 1 \<longrightarrow> currentSlide (nextSlide g s) = 0)
     \<and> (\<forall>s. totalSlides s = n \<and> currentSlide s = 0 \<longrightarrow> currentSlide (prevSlide g s) = n - 1)"
proof -
  from initializeSlideshow_Some [OF assms]
  have n: "2 \<le> n" and t: "totalSlides s0 = n" and c: "currentSlide s0 = 0" by simp_all
  have r: "0 \<le> currentSlide s0" "currentSlide s0 < totalSlides s0" using n t c by simp_all
  have inv: "0 \<le> currentSlide (navigate_all g ns s0) \<and> currentSlide (navigate_all g ns s0) < n
     \<and> totalSlides (navigate_all g ns s0) = n"
    using navigate_all_range [OF r, of g ns] t by simp
  have up: "\<forall>s. totalSlides s = n \<and> currentSlide s = n - 1 \<longrightarrow> currentSlide (nextSlide g s) = 0"
    using n by (simp add: currentSlide_nextSlide js_rem_nonneg)
  have down: "\<forall>s. totalSlides s = n \<and> currentSlide s = 0 \<longrightarrow> currentSlide (prevSlide g s) = n - 1"
    using n by (simp add: currentSlide_prevSlide js_rem_nonneg zmod_minus1)
  from inv up down show ?thesis by blast
qed

theorem slideshow_index_in_range_witness:
  "initializeSlideshow example_container 3 = Some example_slideshow
   \<and> 0 \<le> currentSlide (navigate_all False [Prev, Prev, Next, Next, Next] example_slideshow)
   \<and> currentSlide (navigate_all False [Prev, Prev, Next, Next, Next] example_slideshow) < 3
   \<and> totalSlides (prevSlide False example_slideshow) = 3
   \<and> currentSlide (prevSlide False example_slideshow) = 3 - 1
   \<and> currentSlide (nextSlide False (prevSlide False example_slideshow)) = 0"
proof -
  have i: "initializeSlideshow example_container 3 = Some example_slideshow"
    by (simp add: initializeSlideshow_def example_container_def example_slideshow_def)
  have z: "totalSlides example_slideshow = 3 \<and> currentSlide example_slideshow = 0"
    by (simp add: example_slideshow_def)
  have t: "totalSlides (prevSlide False example_slideshow) = 3"
    by (simp add: example_slideshow_def)
  note th = slideshow_index_in_range [OF i, of False]
  from th [of "[Prev, Prev, Next, Next, Next]"]
  have a: "0 \<le> currentSlide (navigate_all False [Prev, Prev, Next, Next, Next] example_slideshow)
     \<and> currentSlide (navigate_all False [Prev, Prev, Next, Next, Next] example_slideshow) < 3"
    by simp
  from th [of "[]"] z have b: "currentSlide (prevSlide False example_slideshow) = 3 - 1"
    by blast
  from th [of "[]"] t b
  have c: "currentSlide (nextSlide False (prevSlide False example_slideshow)) = 0"
    by blast
  from i a t b c show ?thesis by simp
qed

text \<open>
  Claim C8. When the gallery of an artist shows at most one slide, both arrows are rendered
  with \<^verbatim>\<open>display:none;\<close> in their style, and \<open>initializeSlideshow\<close> returns before it creates
  the navigation state and attaches the listeners: a click on either arrow reaches no
  navigation function.
\<close>

theorem single_slide_gallery_without_navigation:
  assumes "length (take maxImages (imagenes art)) \<le> 1"
  shows "\<exists>gal. renderArtistGallery w art True maxImages = Some gal
     \<and> prev_style gal = ''pointer-events: auto !important; display:none;''
     \<and> next_style gal = ''pointer-events: auto !important; display:none;''
     \<and> navigation gal = None
     \<and> (\<forall>g a. click g a (navigation gal) = None)
     \<and> (\<forall>cont n. n \<le> 1 \<longrightarrow> initializeSlideshow cont n = None)"
  using assms by (simp add: renderArtistGallery_def Let_def initializeSlideshow_def)

theorem single_slide_gallery_without_navigation_witness:
  "length (take 6 (imagenes example_artist)) \<le> 1
   \<and> (\<exists>gal. renderArtistGallery 800 example_artist True 6 = Some gal
        \<and> prev_style gal = ''pointer-events: auto !important; display:none;''
        \<and> next_style gal = ''pointer-events: auto !important; display:none;''
        \<and> navigation gal = None
        \<and> click True NextArrow (navigation gal) = None
        \<and> click True PrevArrow (navigation gal) = None)
   \<and> initializeSlideshow example_container 1 = None"
proof -
  have h: "length (take 6 (imagenes example_artist)) \<le> 1"
    and o: "(1::int) \<le> 1"
    by (simp_all add: example_artist_def)
  from single_slide_gallery_without_navigation [OF h, of 800] h o
  show ?thesis by blast
qed

section \<open>Properties of the horizontal scroll controller\<close>

lemma orderly_snoc:
  "orderly a (cs @ [c]) =
     (orderly a cs \<and> (case c of Create i \<Rightarrow> alive_after a cs = None
                                | Kill i \<Rightarrow> alive_after a cs = Some i))"
  by (induction a cs rule: orderly.induct) (auto split: hs_call.splits)

lemma alive_after_snoc:
  "alive_after a (cs @ [c]) = (case c of Create i \<Rightarrow> Some i | Kill i \<Rightarrow> None)"
  by (induction a cs rule: alive_after.induct) (auto split: hs_call.splits)

lemma handleHorizontalScroll_inv:
  assumes "hs_inv st"
  shows "\<exists>st'. handleHorizontalScroll env st = Inr st' \<and> hs_inv st'
           \<and> window_innerWidth st' = window_innerWidth st
           \<and> resizeTimeout st' = resizeTimeout st
           \<and> (hs_ready env \<longrightarrow>
                 (horizontalScroll st' \<noteq> None) = (window_innerWidth st < 768))"
proof (cases "horizontalScroll st")
  case None
  then show ?thesis
    using assms
    by (auto simp add: handleHorizontalScroll_def initHorizontalScroll_def hs_inv_def Let_def
        hs_ready_def orderly_snoc alive_after_snoc)
next
  case (Some h)
  then show ?thesis
    using assms
    by (auto simp add: handleHorizontalScroll_def kill_def hs_inv_def Let_def
        orderly_snoc alive_after_snoc)
qed

lemma hs_step_inv:
  assumes "hs_inv st" "hs_ready env \<longrightarrow> hs_settled st"
  shows "\<exists>st'. hs_step env ev st = Inr st' \<and> hs_inv st' \<and> (hs_ready env \<longrightarrow> hs_settled st')"
proof (cases ev)
  case (Resize w)
  then show ?thesis using assms by (simp add: hs_inv_def hs_settled_def)
next
  case TimerFires
  show ?thesis
  proof (cases "resizeTimeout st")
    case True
    let ?s = "st\<lparr>resizeTimeout := False\<rparr>"
    have "hs_inv ?s" using assms(1) by (simp add: hs_inv_def)
    from handleHorizontalScroll_inv [OF this, of env]
    obtain st' where "handleHorizontalScroll env ?s = Inr st'" "hs_inv st'"
      "window_innerWidth st' = window_innerWidth ?s"
      "hs_ready env \<longrightarrow> (horizontalScroll st' \<noteq> None) = (window_innerWidth ?s < 768)"
      by blast
    then show ?thesis using TimerFires True by (auto simp add: hs_settled_def)
  next
    case False
    then show ?thesis using TimerFires assms by simp
  qed
qed

lemma hs_run_inv:
  assumes "hs_inv st" "hs_ready env \<longrightarrow> hs_settled st"
  shows "\<exists>st'. hs_run env evs st = Inr st' \<and> hs_inv st' \<and> (hs_ready env \<longrightarrow> hs_settled st')"
  using assms
proof (induction evs arbitrary: st)
  case Nil
  then show ?case by simp
next
  case (Cons ev evs)
  from hs_step_inv [OF Cons.prems, of ev]
  obtain s1 where s1: "hs_step env ev st = Inr s1" "hs_inv s1" "hs_ready env \<longrightarrow> hs_settled s1"
    by blast
  from Cons.IH [OF s1(2) s1(3)] s1(1) show ?case by simp
qed

lemma initHomeHorizontalScroll_inv:
  "\<exists>st0. initHomeHorizontalScroll env False w0 = Some (Inr st0) \<and> hs_inv st0
      \<and> (hs_ready env \<longrightarrow> hs_settled st0)"
proof -
  let ?s = "\<lparr>window_innerWidth = w0, horizontalScroll = None,
              resizeTimeout = False, live = [], fresh = 0, calls = []\<rparr>"
  have "hs_inv ?s" by (simp add: hs_inv_def)
  from handleHorizontalScroll_inv [OF this, of env]
  show ?thesis by (auto simp add: initHomeHorizontalScroll_def hs_settled_def)
qed

lemma hs_width_transitions:
  assumes "hs_ready env"
  shows "\<exists>sa sb sc. initHomeHorizontalScroll env False 1000 = Some (Inr sa)
       \<and> horizontalScroll sa = None
       \<and> hs_run env [Resize 500, TimerFires] sa = Inr sb \<and> horizontalScroll sb \<noteq> None
       \<and> hs_run env [Resize 1000, TimerFires] sb = Inr sc \<and> horizontalScroll sc = None"
  using assms
  by (simp add: hs_ready_def initHomeHorizontalScroll_def handleHorizontalScroll_def
      initHorizontalScroll_def kill_def Let_def)

text \<open>
  Claim C7. With GSAP, ScrollTrigger, the trigger element and the scrollable element
  present, every run of resize and timer events from the initialisation ends without an
  exception, and in a state where, once no resize timer is pending, the handle exists if
  and only if the width is below 768. Started at width 1000 there is no handle; resizing to
  500 creates one when the timer fires, and resizing back to 1000 removes it. The calls to
  the library are orderly: an instance is created only while none is alive, \<^verbatim>\<open>kill\<close> is
  called only on the instance alive, and at most one instance is alive.
\<close>

theorem horizontal_scroll_handle_invariant:
  assumes "gsap_defined env" and "ScrollTrigger_defined env"
    and "container_el env" and "scrollable_el env"
  shows "(\<exists>st0 st. initHomeHorizontalScroll env False w0 = Some (Inr st0)
       \<and> hs_run env evs st0 = Inr st
       \<and> (\<not> resizeTimeout st \<longrightarrow>
             (horizontalScroll st \<noteq> None) = (window_innerWidth st < 768))
       \<and> orderly None (calls st)
       \<and> length (live st) \<le> 1
       \<and> (horizontalScroll st = None) = (live st = []))
     \<and> (\<exists>sa sb sc. initHomeHorizontalScroll env False 1000 = Some (Inr sa)
       \<and> horizontalScroll sa = None
       \<and> hs_run env [Resize 500, TimerFires] sa = Inr sb \<and> horizontalScroll sb \<noteq> None
       \<and> hs_run env [Resize 1000, TimerFires] sb = Inr sc \<and> horizontalScroll sc = None)"
proof -
  have r: "hs_ready env" using assms by (simp add: hs_ready_def)
  obtain st0 where st0: "initHomeHorizontalScroll env False w0 = Some (Inr st0)" "hs_inv st0"
    "hs_ready env \<longrightarrow> hs_settled st0"
    using initHomeHorizontalScroll_inv by blast
  from hs_run_inv [OF st0(2) st0(3), of evs]
  obtain st where st: "hs_run env evs st0 = Inr st" "hs_inv st" "hs_settled st"
    using r by blast
  have a: "\<not> resizeTimeout st \<longrightarrow> (horizontalScroll st \<noteq> None) = (window_innerWidth st < 768)"
    using st(3) unfolding hs_settled_def by blast
  have b: "orderly None (calls st)" using st(2) by (simp add: hs_inv_def)
  have c: "length (live st) \<le> 1" using st(2) by (simp add: hs_inv_def split: option.splits)
  have d: "(horizontalScroll st = None) = (live st = [])"
    using st(2) by (simp add: hs_inv_def split: option.splits)
  have general: "\<exists>st0 st. initHomeHorizontalScroll env False w0 = Some (Inr st0)
       \<and> hs_run env evs st0 = Inr st
       \<and> (\<not> resizeTimeout st \<longrightarrow>
             (horizontalScroll st \<noteq> None) = (window_innerWidth st < 768))
       \<and> orderly None (calls st)
       \<and> length (live st) \<le> 1
       \<and> (horizontalScroll st = None) = (live st = [])"
    by (rule exI [of _ st0], rule exI [of _ st]) (intro conjI st0(1) st(1) a b c d)
  from general hs_width_transitions [OF r] show ?thesis by (rule conjI)
qed

theorem horizontal_scroll_handle_invariant_witness:
  "gsap_defined example_env \<and> ScrollTrigger_defined example_env
   \<and> container_el example_env \<and> scrollable_el example_env
   \<and> (\<exists>st0 st. initHomeHorizontalScroll example_env False 1000 = Some (Inr st0)
        \<and> hs_run example_env [Resize 500, Resize 900, Resize 500, TimerFires] st0 = Inr st
        \<and> \<not> resizeTimeout st
        \<and> horizontalScroll st \<noteq> None \<and> window_innerWidth st < 768
        \<and> orderly None (calls st) \<and> length (live st) \<le> 1)"
proof -
  have e: "gsap_defined example_env" "ScrollTrigger_defined example_env"
    "container_el example_env" "scrollable_el example_env"
    by (simp_all add: example_env_def)
  from horizontal_scroll_handle_invariant
         [OF e, of 1000 "[Resize 500, Resize 900, Resize 500, TimerFires]"]
  obtain st0 st where s: "initHomeHorizontalScroll example_env False 1000 = Some (Inr st0)"
    "hs_run example_env [Resize 500, Resize 900, Resize 500, TimerFires] st0 = Inr st"
    "\<not> resizeTimeout st \<longrightarrow> (horizontalScroll st \<noteq> None) = (window_innerWidth st < 768)"
    "orderly None (calls st)" "length (live st) \<le> 1"
    by blast
  have p: "\<not> resizeTimeout st \<and> window_innerWidth st < 768"
    using s(1,2) e
    by (auto simp add: initHomeHorizontalScroll_def handleHorizontalScroll_def
        initHorizontalScroll_def Let_def)
  with s(3) have "horizontalScroll st \<noteq> None" by blast
  with s p e show ?thesis by blast
qed

section \<open>Properties of the calendar title\<close>

lemma updateTitle_listWeek:
  assumes "view_type v = ''listWeek''" and "elements doc el = Some old"
  shows \<open>elements (fst (updateTitle window el v (doc, c))) el =
     Some (if hasSame_month (currentStart v) (currentEnd v)
           then ''\<newline>            <div class="agenda-days">'' @
                toFormat_d (currentStart v) @ '' - '' @ toFormat_d (currentEnd v) @
                ''</div>  \<newline>            <div class="agenda-month">'' @
                toFormat_LLLL (currentStart v) @ ''</div>''
           else ''\<newline>            <div class="agenda-days">'' @
                toFormat_d (currentStart v) @ '' de '' @ toFormat_LLLL (currentStart v) @
                '' - '' @ toFormat_d (currentEnd v) @ '' de '' @
                toFormat_LLLL (currentEnd v) @ ''</div>'')\<close>
  using assms by (simp add: updateTitle_def Let_def)

lemma string_of_nat_examples:
  "string_of_nat 5 = ''5''" "string_of_nat 11 = ''11''"
  "string_of_nat 28 = ''28''" "string_of_nat 4 = ''4''"
  by (simp_all add: string_of_nat.simps)

text \<open>
  Claim C1. In the week-list view (\<open>listWeek\<close>), when the title element exists,
  \<open>updateTitle\<close> sets its content: when the start and the end of the view fall in the same
  month, to the start day and the end day joined by a dash, over the Spanish name of the
  month; otherwise to day, \<open>de\<close> and month name of the start, a dash, and the same of the
  end. The week from 5 to 11 May gives \<open>5 - 11\<close> over \<open>mayo\<close>, and the week from 28 April to
  4 May gives \<open>28 de abril - 4 de mayo\<close>.
\<close>

theorem updateTitle_week_title:
  assumes "view_type v = ''listWeek''" and "elements doc el = Some old"
  shows \<open>elements (fst (updateTitle window el v (doc, c))) el =
       Some (if year (currentStart v) = year (currentEnd v)
                \<and> month (currentStart v) = month (currentEnd v)
             then ''\<newline>            <div class="agenda-days">'' @
                  string_of_nat (day (currentStart v)) @ '' - '' @
                  string_of_nat (day (currentEnd v)) @
                  ''</div>  \<newline>            <div class="agenda-month">'' @
                  toFormat_LLLL (currentStart v) @ ''</div>''
             else ''\<newline>            <div class="agenda-days">'' @
                  string_of_nat (day (currentStart v)) @ '' de '' @
                  toFormat_LLLL (currentStart v) @ '' - '' @
                  string_of_nat (day (currentEnd v)) @ '' de '' @
                  toFormat_LLLL (currentEnd v) @ ''</div>'')
     \<and> (year (currentStart v) = year (currentEnd v)
          \<and> month (currentStart v) = 5 \<and> day (currentStart v) = 5
          \<and> month (currentEnd v) = 5 \<and> day (currentEnd v) = 11
        \<longrightarrow> elements (fst (updateTitle window el v (doc, c))) el =
              Some (''\<newline>            <div class="agenda-days">5 - 11</div>  '' @
                    ''\<newline>            <div class="agenda-month">mayo</div>''))
     \<and> (month (currentStart v) = 4 \<and> day (currentStart v) = 28
          \<and> month (currentEnd v) = 5 \<and> day (currentEnd v) = 4
        \<longrightarrow> elements (fst (updateTitle window el v (doc, c))) el =
              Some ''\<newline>            <div class="agenda-days">28 de abril - 4 de mayo</div>'')\<close>
proof -
  note t = updateTitle_listWeek [OF assms, of window c]
  have a: \<open>elements (fst (updateTitle window el v (doc, c))) el =
       Some (if year (currentStart v) = year (currentEnd v)
                \<and> month (currentStart v) = month (currentEnd v)
             then ''\<newline>            <div class="agenda-days">'' @
                  string_of_nat (day (currentStart v)) @ '' - '' @
                  string_of_nat (day (currentEnd v)) @
                  ''</div>  \<newline>            <div class="agenda-month">'' @
                  toFormat_LLLL (currentStart v) @ ''</div>''
             else ''\<newline>            <div class="agenda-days">'' @
                  string_of_nat (day (currentStart v)) @ '' de '' @
                  toFormat_LLLL (currentStart v) @ '' - '' @
                  string_of_nat (day (currentEnd v)) @ '' de '' @
                  toFormat_LLLL (currentEnd v) @ ''</div>'')\<close>
    using t by (simp add: hasSame_month_def toFormat_d_def)
  have b: \<open>year (currentStart v) = year (currentEnd v)
          \<and> month (currentStart v) = 5 \<and> day (currentStart v) = 5
          \<and> month (currentEnd v) = 5 \<and> day (currentEnd v) = 11
        \<longrightarrow> elements (fst (updateTitle window el v (doc, c))) el =
              Some (''\<newline>            <div class="agenda-days">5 - 11</div>  '' @
                    ''\<newline>            <div class="agenda-month">mayo</div>'')\<close>
    using t by (simp add: hasSame_month_def toFormat_d_def toFormat_LLLL_def
        month_names_es_def string_of_nat_examples)
  have c: \<open>month (currentStart v) = 4 \<and> day (currentStart v) = 28
          \<and> month (currentEnd v) = 5 \<and> day (currentEnd v) = 4
        \<longrightarrow> elements (fst (updateTitle window el v (doc, c))) el =
              Some ''\<newline>            <div class="agenda-days">28 de abril - 4 de mayo</div>''\<close>
    using t by (simp add: hasSame_month_def toFormat_d_def toFormat_LLLL_def
        month_names_es_def string_of_nat_examples)
  from a b c show ?thesis by (intro conjI)
qed

theorem updateTitle_week_title_witness:
  \<open>view_type example_week = ''listWeek''
   \<and> elements example_agenda_document ''.fc-toolbar-title'' = Some ''5 - 11 de mayo de 2025''
   \<and> elements (fst (updateTitle (Some example_window) ''.fc-toolbar-title'' example_week
                      (example_agenda_document, example_console))) ''.fc-toolbar-title'' =
       Some (''\<newline>            <div class="agenda-days">5 - 11</div>  '' @
             ''\<newline>            <div class="agenda-month">mayo</div>'')\<close>
proof -
  have t: "view_type example_week = ''listWeek''" by (simp add: example_week_def)
  have e: "elements example_agenda_document ''.fc-toolbar-title'' = Some ''5 - 11 de mayo de 2025''"
    by (simp add: example_agenda_document_def)
  have d: "year (currentStart example_week) = year (currentEnd example_week)
          \<and> month (currentStart example_week) = 5 \<and> day (currentStart example_week) = 5
          \<and> month (currentEnd example_week) = 5 \<and> day (currentEnd example_week) = 11"
    by (simp add: example_week_def)
  from updateTitle_week_title [OF t e, of "Some example_window" example_console] d t e
  show ?thesis by blast
qed

end
